theory Spec2Isabelle
  imports Main "HOL-Library.Word"
begin

section \<open>Data model of \<open>boopy.cpp\<close>\<close>

text \<open>
  \<open>boopy.cpp\<close> wraps a \<open>std::vector\<close> of Boost.Polygon polygons in the struct
  \<open>PolyGroup\<close>. Coordinates are C++ \<open>int\<close> values (32 bits, read with \<open>sint\<close>); the
  code only copies them. Container sizes (\<open>size_t\<close>) are natural numbers; the two
  \<open>unsigned int\<close> quantities of the source, the loop counter of \<open>addPolyData\<close> and the
  index and count of \<open>getPoly\<close> and \<open>getPolyCount\<close>, are 32-bit words, so that their
  wrap-around is part of the model.
\<close>

type_synonym coord = "32 word"

type_synonym Point = "coord \<times> coord"

text \<open>
  Modelled from the spec: the Boost.Polygon type \<open>polygon_data<int>\<close> is declared outside
  \<open>boopy.cpp\<close>. The spec describes a polygon as the ordered sequence of its points,
  built from the given points without deduplication or validation and iterated in
  insertion order with no closing point, so a polygon is the list of its points.
\<close>

type_synonym Polygon = "Point list"

type_synonym PolygonSet = "Polygon list"

text \<open>The struct \<open>PolyGroup\<close>; its only member \<open>ps_\<close> is the field \<open>ps\<close>.\<close>

record PolyGroup =
  ps :: PolygonSet

text \<open>
  The exception of \<open>std::vector::at\<close>, the only checked access in \<open>boopy.cpp\<close>.
  Running out of memory is outside the model.
\<close>

datatype error = OutOfRange

definition at_vec :: "'a list \<Rightarrow> nat \<Rightarrow> error + 'a" where
  "at_vec v n = (if n < length v then Inr (v ! n) else Inl OutOfRange)"

definition construct_Point :: "coord \<Rightarrow> coord \<Rightarrow> Point" where
  "construct_Point x y = (x, y)"

text \<open>
  Modelled from the spec: \<open>gtl::set_points\<close> (Boost.Polygon) fills a polygon from a range
  of points, in order.
\<close>

definition set_points :: "Point list \<Rightarrow> Polygon" where
  "set_points pts = pts"

section \<open>\<open>PolyGroup::addPolyData\<close>\<close>

text \<open>
  The loop \<open>for (unsigned int i = 0; i < npts; i++) pts[i] = construct(data.at(2*i),
  data.at(2*i+1))\<close>. The counter \<open>i\<close> and the products \<open>2*i\<close>, \<open>2*i+1\<close> are
  \<open>unsigned int\<close>; the comparison with \<open>npts\<close> and the indexing happen at \<open>size_t\<close>.
  The result is \<open>None\<close> when the loop does not return, \<open>Some (Inl e)\<close> when \<open>at\<close> raises.
\<close>

partial_function (option) addPolyData_loop ::
  "coord list \<Rightarrow> nat \<Rightarrow> 32 word \<Rightarrow> Point list \<Rightarrow> (error + Point list) option" where
  "addPolyData_loop data npts i pts =
     (if unat i < npts then
        (case at_vec data (unat (2 * i)) of
           Inl e \<Rightarrow> Some (Inl e)
         | Inr x \<Rightarrow>
            (case at_vec data (unat (2 * i + 1)) of
               Inl e \<Rightarrow> Some (Inl e)
             | Inr y \<Rightarrow>
                 addPolyData_loop data npts (i + 1) (pts[unat i := construct_Point x y])))
      else Some (Inr pts))"

declare addPolyData_loop.simps [code]

text \<open>
  \<open>new Point[npts]\<close> is an array of \<open>npts\<close> default points; the loop overwrites every
  entry before the array is read.
\<close>

definition addPolyData :: "coord list \<Rightarrow> PolyGroup \<Rightarrow> (error + PolyGroup) option" where
  "addPolyData data s =
     (let npts = length data div 2 in
      case addPolyData_loop data npts 0 (replicate npts (0, 0)) of
        None \<Rightarrow> None
      | Some (Inl e) \<Rightarrow> Some (Inl e)
      | Some (Inr pts) \<Rightarrow> Some (Inr (s\<lparr>ps := ps s @ [set_points pts]\<rparr>)))"

section \<open>\<open>PolyGroup::getPolyCount\<close> and \<open>PolyGroup::getPoly\<close>\<close>

definition getPolyCount :: "PolyGroup \<Rightarrow> 32 word" where
  "getPolyCount s = word_of_nat (length (ps s))"

text \<open>The loop of \<open>getPoly\<close> over the points of one polygon, pushing \<open>x\<close> then \<open>y\<close>.\<close>

fun push_points :: "Point list \<Rightarrow> coord list" where
  "push_points [] = []"
| "push_points (v # vs) = fst v # snd v # push_points vs"

definition getPoly :: "PolyGroup \<Rightarrow> 32 word \<Rightarrow> coord list" where
  "getPoly s n = (if unat n < length (ps s) then push_points (ps s ! unat n) else [])"

section \<open>The in-place boolean operations\<close>

text \<open>
  \<open>difference\<close>, \<open>intersection\<close>, \<open>merge\<close> and \<open>exor\<close> receive the second group by
  reference, so the receiver and the argument may be the same object. Objects live in
  a store indexed by addresses. The Boost.Polygon operators \<open>-=\<close>, \<open>&=\<close>, \<open>+=\<close> and
  \<open>^=\<close> are not part of \<open>boopy.cpp\<close>: each is a parameter, a function of the two
  operand values whose result is assigned to the left operand.
\<close>

type_synonym addr = nat

type_synonym store = "addr \<Rightarrow> PolyGroup"

type_synonym set_operator = "PolygonSet \<Rightarrow> PolygonSet \<Rightarrow> PolygonSet"

definition difference :: "set_operator \<Rightarrow> addr \<Rightarrow> addr \<Rightarrow> store \<Rightarrow> store" where
  "difference op_minus this pg2 h =
     h(this := (h this)\<lparr>ps := op_minus (ps (h this)) (ps (h pg2))\<rparr>)"

definition intersection :: "set_operator \<Rightarrow> addr \<Rightarrow> addr \<Rightarrow> store \<Rightarrow> store" where
  "intersection op_and this pg2 h =
     h(this := (h this)\<lparr>ps := op_and (ps (h this)) (ps (h pg2))\<rparr>)"

definition merge :: "set_operator \<Rightarrow> addr \<Rightarrow> addr \<Rightarrow> store \<Rightarrow> store" where
  "merge op_plus this pg2 h =
     h(this := (h this)\<lparr>ps := op_plus (ps (h this)) (ps (h pg2))\<rparr>)"

definition exor :: "set_operator \<Rightarrow> addr \<Rightarrow> addr \<Rightarrow> store \<Rightarrow> store" where
  "exor op_xor this pg2 h =
     h(this := (h this)\<lparr>ps := op_xor (ps (h this)) (ps (h pg2))\<rparr>)"

section \<open>Reference functions for the statements\<close>

text \<open>The vertex pairs of a flat coordinate sequence; an unpaired last element is dropped.\<close>

fun pairs :: "coord list \<Rightarrow> Point list" where
  "pairs (x # y # rest) = (x, y) # pairs rest"
| "pairs _ = []"

text \<open>Two vertex lists describe the same cycle: one is a rotation of the other.\<close>

definition same_cycle :: "'a list \<Rightarrow> 'a list \<Rightarrow> bool" where
  "same_cycle xs ys = (xs \<in> set (map (\<lambda>k. rotate k ys) [0..<Suc (length ys)]))"

text \<open>
  What the loop of \<open>addPolyData\<close> writes to \<open>pts[k]\<close>: the two reads are at the
  \<open>unsigned int\<close> values of \<open>2*k\<close> and \<open>2*k+1\<close>.
\<close>

definition stored_point :: "coord list \<Rightarrow> nat \<Rightarrow> Point" where
  "stored_point data k = (data ! ((2 * k) mod 2 ^ 32), data ! ((2 * k + 1) mod 2 ^ 32))"

text \<open>
  A coordinate sequence of \<open>2 ^ 32 + 2\<close> elements: the vertex \<open>(1, 1)\<close> followed by
  \<open>2 ^ 31\<close> vertices \<open>(0, 0)\<close>.
\<close>

definition huge_input :: "coord list" where
  "huge_input = 1 # 1 # replicate (2 ^ 32) 0"

section \<open>The loop of \<open>addPolyData\<close>\<close>

lemma unat_twice: "unat (2 * (i :: 32 word)) = (2 * unat i) mod 2 ^ 32"
  by (simp add: unat_word_ariths)

lemma unat_twice_plus: "unat (2 * (i :: 32 word) + 1) = (2 * unat i + 1) mod 2 ^ 32"
  by (simp add: unat_word_ariths mod_simps)

lemma unat_next: "unat (i :: 32 word) < n \<Longrightarrow> n < 2 ^ 32 \<Longrightarrow> unat (i + 1) = Suc (unat i)"
  by (simp add: unat_word_ariths)

text \<open>One iteration: neither read is out of range, since wrapping only lowers an index.\<close>

lemma addPolyData_loop_step:
  assumes "unat i < npts" and "2 * npts \<le> length data"
  shows "addPolyData_loop data npts i pts =
         addPolyData_loop data npts (i + 1) (pts[unat i := stored_point data (unat i)])"
proof -
  have a: "(2 * unat i) mod 2 ^ 32 < length data"
  proof -
    have "(2 * unat i) mod 2 ^ 32 \<le> 2 * unat i" by (rule mod_less_eq_dividend)
    also have "\<dots> < 2 * npts" using assms(1) by simp
    finally show ?thesis using assms(2) by simp
  qed
  have b: "(2 * unat i + 1) mod 2 ^ 32 < length data"
  proof -
    have "(2 * unat i + 1) mod 2 ^ 32 \<le> 2 * unat i + 1" by (rule mod_less_eq_dividend)
    also have "\<dots> < 2 * npts" using assms(1) by simp
    finally show ?thesis using assms(2) by simp
  qed
  show ?thesis
    apply (subst addPolyData_loop.simps)
    using assms(1) a b
    by (simp add: at_vec_def unat_twice unat_twice_plus stored_point_def construct_Point_def)
qed

text \<open>
  With fewer than \<open>2 ^ 32\<close> points the counter reaches \<open>npts\<close> and the loop returns,
  every entry from \<open>i\<close> on overwritten.
\<close>

lemma addPolyData_loop_run:
  assumes "npts < 2 ^ 32" and "2 * npts \<le> length data"
    and "length pts = npts" and "unat i \<le> npts"
  shows "addPolyData_loop data npts i pts =
         Some (Inr (take (unat i) pts @ map (stored_point data) [unat i..<npts]))"
  using assms(3,4)
proof (induction "npts - unat i" arbitrary: i pts)
  case 0
  then have "unat i = npts" by simp
  then show ?case using 0 by (subst addPolyData_loop.simps) simp
next
  case (Suc n)
  then have lt: "unat i < npts" by simp
  have nx: "unat (i + 1) = Suc (unat i)" using lt assms(1) by (rule unat_next)
  have "addPolyData_loop data npts (i + 1) (pts[unat i := stored_point data (unat i)]) =
        Some (Inr (take (unat (i + 1)) (pts[unat i := stored_point data (unat i)]) @
                   map (stored_point data) [unat (i + 1)..<npts]))"
    using Suc lt nx by (intro Suc.hyps(1)) simp_all
  moreover have "take (Suc (unat i)) (pts[unat i := stored_point data (unat i)]) =
                 take (unat i) pts @ [stored_point data (unat i)]"
    using lt Suc.prems(1) by (simp add: take_Suc_conv_app_nth)
  moreover have "[unat i..<npts] = unat i # [Suc (unat i)..<npts]"
    using lt by (simp add: upt_conv_Cons)
  ultimately show ?case
    using addPolyData_loop_step [OF lt assms(2), of pts] nx by simp
qed

text \<open>\<open>addPolyData\<close> returns whenever the input has fewer than \<open>2 ^ 32\<close> pairs.\<close>

lemma addPolyData_returns:
  assumes "length data div 2 < 2 ^ 32"
  shows "addPolyData data s =
         Some (Inr (s\<lparr>ps := ps s @ [map (stored_point data) [0..<length data div 2]]\<rparr>))"
proof -
  have "addPolyData_loop data (length data div 2) 0 (replicate (length data div 2) (0, 0)) =
        Some (Inr (take (unat (0 :: 32 word)) (replicate (length data div 2) (0, 0)) @
                   map (stored_point data) [unat (0 :: 32 word)..<length data div 2]))"
    using assms by (intro addPolyData_loop_run) simp_all
  then show ?thesis
    by (simp add: addPolyData_def set_points_def)
qed

section \<open>Inputs below the wrap-around\<close>

lemma stored_point_nowrap:
  "k < 2 ^ 31 \<Longrightarrow> stored_point data k = (data ! (2 * k), data ! (2 * k + 1))"
  by (simp add: stored_point_def)

lemma length_pairs: "length (pairs data) = length data div 2"
  by (induction data rule: pairs.induct) simp_all

lemma nth_pairs:
  "k < length data div 2 \<Longrightarrow> pairs data ! k = (data ! (2 * k), data ! (2 * k + 1))"
proof (induction data arbitrary: k rule: pairs.induct)
  case (1 x y rest)
  then show ?case by (cases k) simp_all
qed simp_all

lemma stored_points_pairs:
  assumes "length data div 2 \<le> 2 ^ 31"
  shows "map (stored_point data) [0..<length data div 2] = pairs data"
proof (rule nth_equalityI)
  show "length (map (stored_point data) [0..<length data div 2]) = length (pairs data)"
    by (simp add: length_pairs)
next
  fix k assume "k < length (map (stored_point data) [0..<length data div 2])"
  then have k: "k < length data div 2" by simp
  then have "k < 2 ^ 31" using assms by simp
  then show "map (stored_point data) [0..<length data div 2] ! k = pairs data ! k"
    using k by (simp add: stored_point_nowrap nth_pairs)
qed

lemma push_points_pairs: "push_points (pairs data) = take (2 * (length data div 2)) data"
  by (induction data rule: pairs.induct) simp_all

lemma push_points_concat: "push_points vs = concat (map (\<lambda>(x, y). [x, y]) vs)"
  by (induction vs) (simp_all add: case_prod_beta)

lemma pairs_push_points: "pairs (push_points vs) = vs"
  by (induction vs) simp_all

section \<open>The input \<open>huge_input\<close>\<close>

lemma huge_stored_points:
  fixes M :: nat
  assumes M: "M = 2 ^ 31"
  shows "map (stored_point (1 # 1 # replicate (2 * M) 0)) [0..<Suc M] =
         (1, 1) # replicate (M - 1) (0, 0) @ [(1, 1)]"
proof (rule nth_equalityI)
  have pos: "0 < M" using M by simp
  then show "length (map (stored_point (1 # 1 # replicate (2 * M) 0)) [0..<Suc M]) =
        length ((1, 1) # replicate (M - 1) (0, 0) @ [(1 :: coord, 1 :: coord)])"
    by simp
  have W: "(2 :: nat) ^ 32 = 2 * M" using M by simp
  fix k assume "k < length (map (stored_point (1 # 1 # replicate (2 * M) 0)) [0..<Suc M])"
  then have k: "k < Suc M" by simp
  have "stored_point (1 # 1 # replicate (2 * M) 0) k =
        ((1, 1) # replicate (M - 1) (0, 0) @ [(1, 1)]) ! k"
  proof (cases "k = M")
    case True
    have "(2 * M + 1) mod (2 * M) = 1"
      using pos by (simp add: mod_Suc)
    then show ?thesis
      using True pos unfolding stored_point_def W by (simp add: nth_append)
  next
    case False
    then have lt: "k < M" using k by simp
    show ?thesis
    proof (cases k)
      case 0
      then show ?thesis using pos unfolding stored_point_def W by simp
    next
      case (Suc j)
      then have "j < M - 1" using lt by simp
      then show ?thesis
        using Suc lt unfolding stored_point_def W by (simp add: nth_append)
    qed
  qed
  then show "map (stored_point (1 # 1 # replicate (2 * M) 0)) [0..<Suc M] ! k =
             ((1, 1) # replicate (M - 1) (0, 0) @ [(1, 1)]) ! k"
    using k by (simp del: upt_Suc)
qed

lemma pairs_replicate: "pairs (replicate (2 * n) x) = replicate n (x, x)"
  by (induction n) simp_all

lemma same_cycle_filter:
  assumes "same_cycle xs ys"
  shows "length (filter P xs) = length (filter P ys)"
proof -
  from assms have "xs \<in> (\<lambda>k. rotate k ys) ` set [0..<Suc (length ys)]"
    by (simp only: same_cycle_def set_map)
  then obtain k where "xs = rotate k ys"
    by blast
  then have xs: "xs = drop (k mod length ys) ys @ take (k mod length ys) ys"
    by (simp add: rotate_drop_take)
  have "length (filter P ys) =
        length (filter P (take (k mod length ys) ys @ drop (k mod length ys) ys))"
    by (simp only: append_take_drop_id)
  also have "\<dots> = length (filter P (take (k mod length ys) ys)) +
                    length (filter P (drop (k mod length ys) ys))"
    by (simp only: filter_append length_append)
  finally show ?thesis
    by (simp only: xs filter_append length_append add.commute)
qed

lemma huge_not_same_cycle:
  fixes M :: nat
  assumes "0 < M"
  shows "\<not> same_cycle ((1, 1) # replicate (M - 1) (0, 0) @ [(1 :: coord, 1 :: coord)])
                      ((1, 1) # replicate M (0, 0))"
proof
  assume "same_cycle ((1, 1) # replicate (M - 1) (0, 0) @ [(1 :: coord, 1 :: coord)])
                     ((1, 1) # replicate M (0, 0))"
  from same_cycle_filter [OF this, of "\<lambda>p. p = (1, 1)"]
  show False by simp
qed

lemma huge_input_alt: "M = 2 ^ 31 \<Longrightarrow> huge_input = 1 # 1 # replicate (2 * M) 0"
  by (simp add: huge_input_def)

lemma huge_input_length: "length huge_input div 2 = Suc (2 ^ 31)"
  by (simp add: huge_input_def)

lemma addPolyData_huge:
  "addPolyData huge_input s =
   Some (Inr (s\<lparr>ps := ps s @ [(1, 1) # replicate (2 ^ 31 - 1) (0, 0) @ [(1, 1)]]\<rparr>))"
proof -
  have len: "length (1 # 1 # replicate (2 * 2 ^ 31) (0 :: coord)) div 2 = Suc (2 ^ 31)"
    by simp
  have "length huge_input div 2 < 2 ^ 32"
    by (simp add: huge_input_length)
  from addPolyData_returns [OF this, of s]
  show ?thesis
    using huge_stored_points [OF refl]
    by (simp only: huge_input_alt [OF refl] len)
qed

lemma pairs_huge: "pairs huge_input = (1, 1) # replicate (2 ^ 31) (0, 0)"
  using pairs_replicate [of "2 ^ 31" "0 :: coord"]
  by (simp add: huge_input_alt [OF refl])

section \<open>\<open>addPolyData\<close> and \<open>getPoly\<close> below the wrap-around\<close>

text \<open>
  With at most \<open>2 ^ 31\<close> pairs no index wraps: the stored polygon is the list of
  pairs of the input.
\<close>

lemma addPolyData_below_wrap:
  assumes "length data div 2 \<le> 2 ^ 31"
  shows "addPolyData data s = Some (Inr (s\<lparr>ps := ps s @ [pairs data]\<rparr>))"
proof -
  have "length data div 2 < 2 ^ 32" using assms by simp
  from addPolyData_returns [OF this, of s] stored_points_pairs [OF assms]
  show ?thesis by simp
qed

lemma pairs_butlast: "odd (length data) \<Longrightarrow> pairs (butlast data) = pairs data"
proof (induction data rule: pairs.induct)
  case (1 x y rest)
  then have "rest \<noteq> []" by auto
  with 1 show ?case by simp
qed simp_all

text \<open>
  Reading back at the count taken before the call; the count fits the \<open>unsigned int\<close>
  index when the set holds fewer than \<open>2 ^ 32\<close> polygons.
\<close>

lemma getPoly_last:
  assumes "length (ps s) < 2 ^ 32"
  shows "getPoly (s\<lparr>ps := ps s @ [p]\<rparr>) (getPolyCount s) = push_points p"
proof -
  have "unat (word_of_nat (length (ps s)) :: 32 word) = length (ps s)"
    using assms by (simp add: unat_of_nat)
  then show ?thesis by (simp add: getPoly_def getPolyCount_def)
qed

lemma roundtrip_below_wrap:
  assumes "even (length data)" and "length data div 2 \<le> 2 ^ 31" and "length (ps s) < 2 ^ 32"
  shows "addPolyData data s = Some (Inr (s\<lparr>ps := ps s @ [pairs data]\<rparr>))"
    and "getPoly (s\<lparr>ps := ps s @ [pairs data]\<rparr>) (getPolyCount s) = data"
proof -
  show "addPolyData data s = Some (Inr (s\<lparr>ps := ps s @ [pairs data]\<rparr>))"
    using assms(2) by (rule addPolyData_below_wrap)
  have "2 * (length data div 2) = length data" using assms(1) by simp
  then show "getPoly (s\<lparr>ps := ps s @ [pairs data]\<rparr>) (getPolyCount s) = data"
    using getPoly_last [OF assms(3), of "pairs data"] by (simp add: push_points_pairs)
qed

section \<open>Inputs of \<open>2 ^ 32\<close> pairs or more\<close>

text \<open>
  The counter never reaches \<open>npts\<close>: it wraps to \<open>0\<close> after \<open>2 ^ 32 - 1\<close>, every read
  stays in range, and the loop does not return.
\<close>

lemma addPolyData_loop_returns_bound:
  assumes "addPolyData_loop data npts i pts = Some y"
  shows "2 * npts \<le> length data \<longrightarrow> npts < 2 ^ 32"
proof (rule addPolyData_loop.raw_induct
    [where P = "\<lambda>d n j p r. 2 * n \<le> length d \<longrightarrow> n < 2 ^ 32", OF _ assms], goal_cases)
  case (1 loop d n j p r)
  note IH = 1(1) and body = 1(2)
  show ?case
  proof (rule impI, rule ccontr)
    assume len: "2 * n \<le> length d" and "\<not> n < 2 ^ 32"
    moreover have "unat j < 2 ^ 32" using unsigned_less [of j] by simp
    ultimately have lt: "unat j < n" by simp
    have r1: "(2 * unat j) mod 2 ^ 32 < length d"
    proof -
      have "(2 * unat j) mod 2 ^ 32 \<le> 2 * unat j" by (rule mod_less_eq_dividend)
      also have "\<dots> < 2 * n" using lt by simp
      finally show ?thesis using len by simp
    qed
    have r2: "(2 * unat j + 1) mod 2 ^ 32 < length d"
    proof -
      have "(2 * unat j + 1) mod 2 ^ 32 \<le> 2 * unat j + 1" by (rule mod_less_eq_dividend)
      also have "\<dots> < 2 * n" using lt by simp
      finally show ?thesis using len by simp
    qed
    from body lt r1 r2
    have "loop d n (j + 1) (p[unat j := stored_point d (unat j)]) = Some r"
      by (simp add: at_vec_def unat_twice unat_twice_plus stored_point_def construct_Point_def)
    from IH [OF this] len \<open>\<not> n < 2 ^ 32\<close> show False
      by simp
  qed
qed

lemma addPolyData_loop_diverges:
  assumes "2 ^ 32 \<le> npts" and "2 * npts \<le> length data"
  shows "addPolyData_loop data npts i pts = None"
proof (cases "addPolyData_loop data npts i pts")
  case (Some y)
  from addPolyData_loop_returns_bound [OF this] assms show ?thesis by simp
qed simp

lemma addPolyData_diverges:
  assumes "2 ^ 33 \<le> length data"
  shows "addPolyData data s = None"
proof -
  have "(2 :: nat) ^ 32 \<le> length data div 2" using assms by simp
  moreover have "2 * (length data div 2) \<le> length data" by simp
  ultimately show ?thesis
    by (simp add: addPolyData_def addPolyData_loop_diverges)
qed

section \<open>The receiver of a boolean operation\<close>

text \<open>The receiver holds what the operator computes from the two collections.\<close>

lemma boolean_ops_receiver:
  "ps (difference op_minus this pg2 h this) = op_minus (ps (h this)) (ps (h pg2))"
  "ps (intersection op_and this pg2 h this) = op_and (ps (h this)) (ps (h pg2))"
  "ps (merge op_plus this pg2 h this) = op_plus (ps (h this)) (ps (h pg2))"
  "ps (exor op_xor this pg2 h this) = op_xor (ps (h this)) (ps (h pg2))"
  by (simp_all add: difference_def intersection_def merge_def exor_def)

section \<open>Claims\<close>

text \<open>
  C2, as stated: an odd-length sequence makes \<open>addPolygon\<close> fail and leaves the set
  unchanged. Counterexample: on the three coordinates \<open>1, 2, 3\<close> and the empty set,
  \<open>addPolyData\<close> returns normally and the set holds the polygon of the single vertex
  \<open>(1, 2)\<close>.
\<close>

theorem addPolyData_odd_counterexample:
  "addPolyData [1, 2, 3] \<lparr>ps = []\<rparr> = Some (Inr \<lparr>ps = [[(1, 2)]]\<rparr>)"
  by code_simp

text \<open>
  C2, amended: for every odd-length sequence with at most \<open>2 ^ 31\<close> pairs,
  \<open>addPolyData\<close> raises no error and appends one polygon, built from the pairs of the
  sequence without its last coordinate.
\<close>

theorem addPolyData_odd_length:
  assumes "odd (length data)" and "length data div 2 \<le> 2 ^ 31"
  shows "addPolyData data s = Some (Inr (s\<lparr>ps := ps s @ [pairs (butlast data)]\<rparr>))"
  using addPolyData_below_wrap [OF assms(2), of s] pairs_butlast [OF assms(1)] by simp

text \<open>C2, amended, at the sequence \<open>1, 2, 3\<close> and a set that holds one polygon.\<close>

theorem addPolyData_odd_length_witness:
  "odd (length [1, 2, 3 :: coord]) \<and> length [1, 2, 3 :: coord] div 2 \<le> 2 ^ 31 \<and>
   addPolyData [1, 2, 3] \<lparr>ps = [[(7, 7)]]\<rparr> = Some (Inr \<lparr>ps = [[(7, 7)], [(1, 2)]]\<rparr>)"
  using addPolyData_odd_length [of "[1, 2, 3]" "\<lparr>ps = [[(7, 7)]]\<rparr>"] by simp

text \<open>
  C3 at \<open>huge_input\<close>, a sequence of even length with \<open>2 ^ 31 + 1\<close> pairs: added to
  the empty set and read back at index \<open>getPolyCount\<close> of the empty set, it comes back
  as a sequence whose pairs are not a rotation of the pairs given.
\<close>

theorem roundtrip_huge_input:
  "even (length huge_input) \<and> 3 \<le> length huge_input div 2 \<and>
   map_option (map_sum id
       (\<lambda>s'. same_cycle (pairs (getPoly s' (getPolyCount \<lparr>ps = []\<rparr>))) (pairs huge_input)))
     (addPolyData huge_input \<lparr>ps = []\<rparr>) = Some (Inr False)"
proof -
  have "even (length huge_input)"
    by (simp add: huge_input_def)
  moreover have "3 \<le> length huge_input div 2"
    by (simp add: huge_input_length)
  moreover have "getPolyCount \<lparr>ps = []\<rparr> = 0"
    by (simp add: getPolyCount_def)
  moreover have "getPoly \<lparr>ps = [p]\<rparr> 0 = push_points p" for p
    by (simp add: getPoly_def)
  moreover have "\<not> same_cycle ((1, 1) # replicate (2 ^ 31 - 1) (0, 0) @ [(1 :: coord, 1 :: coord)])
                             ((1, 1) # replicate (2 ^ 31) (0, 0))"
    by (rule huge_not_same_cycle) simp
  ultimately show ?thesis
    by (simp only: addPolyData_huge pairs_huge pairs_push_points option.map_sel option.simps
        map_sum.simps id_apply PolyGroup.simps append_Nil simp_thms)
qed

text \<open>
  C6: for every set and every index, \<open>getPoly\<close> returns the coordinates of the polygon
  stored at the index, \<open>x\<close> then \<open>y\<close> for each point in order, when the index is less
  than the number of stored polygons, and the empty sequence otherwise.
\<close>

theorem getPoly_flat_or_empty:
  "(unat n < length (ps s) \<longrightarrow> getPoly s n = concat (map (\<lambda>(x, y). [x, y]) (ps s ! unat n))) \<and>
   (length (ps s) \<le> unat n \<longrightarrow> getPoly s n = [])"
proof (cases "unat n < length (ps s)")
  case True
  then have "getPoly s n = push_points (ps s ! unat n)"
    by (simp add: getPoly_def)
  with True show ?thesis
    by (simp add: push_points_concat)
next
  case False
  then have "getPoly s n = []"
    by (simp add: getPoly_def)
  with False show ?thesis
    by simp
qed

text \<open>C6 on a set of one polygon, at the indices \<open>0\<close> and \<open>5\<close>.\<close>

theorem getPoly_flat_or_empty_witness:
  "unat (0 :: 32 word) < length (ps \<lparr>ps = [[(1, 2), (3, 4)]]\<rparr>) \<and>
   getPoly \<lparr>ps = [[(1, 2), (3, 4)]]\<rparr> 0 = [1, 2, 3, 4] \<and>
   length (ps \<lparr>ps = [[(1, 2), (3, 4)]]\<rparr>) \<le> unat (5 :: 32 word) \<and>
   getPoly \<lparr>ps = [[(1, 2), (3, 4)]]\<rparr> 5 = []"
  using getPoly_flat_or_empty [of 0 "\<lparr>ps = [[(1, 2), (3, 4)]]\<rparr>"]
    getPoly_flat_or_empty [of 5 "\<lparr>ps = [[(1, 2), (3, 4)]]\<rparr>"]
  by simp

text \<open>
  C9: \<open>difference\<close>, \<open>intersection\<close>, \<open>merge\<close> and \<open>exor\<close> change the receiver only:
  every other object of the store, the argument \<open>pg2\<close> among them when it is another
  object than the receiver, is left as it was, whatever the operators compute.
\<close>

theorem boolean_ops_leave_argument:
  assumes "a \<noteq> this"
  shows "difference op_minus this pg2 h a = h a \<and>
         intersection op_and this pg2 h a = h a \<and>
         merge op_plus this pg2 h a = h a \<and>
         exor op_xor this pg2 h a = h a"
  using assms by (simp add: difference_def intersection_def merge_def exor_def)

text \<open>
  C9 on a store with a square at address \<open>0\<close>, the receiver, and a triangle at address
  \<open>1\<close>, the argument, with concatenation in the place of each operator.
\<close>

theorem boolean_ops_leave_argument_witness:
  "(1 :: addr) \<noteq> 0 \<and>
   difference (@) 0 1 (\<lambda>a. if a = 0 then \<lparr>ps = [[(0, 0), (2, 0), (2, 2), (0, 2)]]\<rparr>
                              else \<lparr>ps = [[(0, 0), (1, 0), (0, 1)]]\<rparr>) 1 =
     \<lparr>ps = [[(0, 0), (1, 0), (0, 1)]]\<rparr> \<and>
   intersection (@) 0 1 (\<lambda>a. if a = 0 then \<lparr>ps = [[(0, 0), (2, 0), (2, 2), (0, 2)]]\<rparr>
                              else \<lparr>ps = [[(0, 0), (1, 0), (0, 1)]]\<rparr>) 1 =
     \<lparr>ps = [[(0, 0), (1, 0), (0, 1)]]\<rparr> \<and>
   merge (@) 0 1 (\<lambda>a. if a = 0 then \<lparr>ps = [[(0, 0), (2, 0), (2, 2), (0, 2)]]\<rparr>
                              else \<lparr>ps = [[(0, 0), (1, 0), (0, 1)]]\<rparr>) 1 =
     \<lparr>ps = [[(0, 0), (1, 0), (0, 1)]]\<rparr> \<and>
   exor (@) 0 1 (\<lambda>a. if a = 0 then \<lparr>ps = [[(0, 0), (2, 0), (2, 2), (0, 2)]]\<rparr>
                              else \<lparr>ps = [[(0, 0), (1, 0), (0, 1)]]\<rparr>) 1 =
     \<lparr>ps = [[(0, 0), (1, 0), (0, 1)]]\<rparr>"
  using boolean_ops_leave_argument [of 1 0 "(@)" 1
      "\<lambda>a. if a = 0 then \<lparr>ps = [[(0, 0), (2, 0), (2, 2), (0, 2)]]\<rparr>
           else \<lparr>ps = [[(0, 0), (1, 0), (0, 1)]]\<rparr>" "(@)" "(@)" "(@)"]
  by simp

text \<open>
  C10 at \<open>huge_input\<close>, whose pairs are \<open>(1, 1)\<close> followed by \<open>2 ^ 31\<close> times
  \<open>(0, 0)\<close>: the polygon that \<open>addPolyData\<close> stores ends with the vertex \<open>(1, 1)\<close>, read
  at the wrapped indices \<open>0\<close> and \<open>1\<close>.
\<close>

theorem addPolyData_huge_input:
  "addPolyData huge_input \<lparr>ps = []\<rparr> =
     Some (Inr \<lparr>ps = [(1, 1) # replicate (2 ^ 31 - 1) (0, 0) @ [(1, 1)]]\<rparr>) \<and>
   pairs huge_input = (1, 1) # replicate (2 ^ 31) (0, 0) \<and>
   last ((1, 1) # replicate (2 ^ 31 - 1) (0, 0) @ [(1 :: coord, 1 :: coord)]) = (1, 1) \<and>
   last (pairs huge_input) = (0, 0)"
proof -
  have "addPolyData huge_input \<lparr>ps = []\<rparr> =
        Some (Inr \<lparr>ps = [(1, 1) # replicate (2 ^ 31 - 1) (0, 0) @ [(1, 1)]]\<rparr>)"
    using addPolyData_huge [of "\<lparr>ps = []\<rparr>"] by simp
  moreover have "last (pairs huge_input) = (0, 0)"
    by (simp add: pairs_huge)
  ultimately show ?thesis
    by (simp add: pairs_huge)
qed

end
